theory Spec2Isabelle
  imports Main "HOL-Library.AList" "HOL-Library.Char_ord" "HOL-Library.List_Lexorder"
begin

section \<open>Python values used by production\_calendar.py\<close>

text \<open>
  Exceptions are values. Only the exceptions that the code of
  \<^verbatim>\<open>production_calendar.py\<close> can meet on the paths modelled here are listed:
  \<^item> \<open>KeyError\<close>: subscripting a dict with a key it does not hold;
  \<^item> \<open>ValueError\<close>: \<^verbatim>\<open>int(s)\<close> on text that is not an integer literal;
  \<^item> \<open>JSONDecodeError\<close>: \<^verbatim>\<open>json.load\<close> on a file that does not hold a JSON document;
  \<^item> \<open>URLError\<close>: \<^verbatim>\<open>request.urlopen\<close> failing (transport, TLS, HTTP status);
  \<^item> \<open>IncompleteRead\<close>: \<^verbatim>\<open>response.read()\<close> failing while the body is transferred;
  \<^item> \<open>UnicodeDecodeError\<close>: \<^verbatim>\<open>.decode('utf-8')\<close> on bytes that are not UTF-8.
\<close>

datatype error =
    KeyError
  | ValueError
  | JSONDecodeError
  | URLError
  | IncompleteRead
  | UnicodeDecodeError

subsection \<open>\<^verbatim>\<open>str(n)\<close> and \<^verbatim>\<open>int(s)\<close> on decimal text\<close>

text \<open>
  Text is a list of 8-bit characters, so the model covers ASCII text. \<^verbatim>\<open>str\<close> of
  an integer is its decimal expansion without leading zeros, with a minus sign for a
  negative number. Integers of more than 4300 digits, which CPython from 3.11 on
  refuses to convert, are outside the model: the year of a \<^verbatim>\<open>datetime\<close> lies between
  1 and 9999, and a month is the position of a table in the page.
\<close>

definition digit_char :: "nat \<Rightarrow> char" where
  "digit_char d = char_of (48 + d)"

fun str_nat :: "nat \<Rightarrow> string" where
  "str_nat n = (if n < 10 then [digit_char n] else str_nat (n div 10) @ [digit_char (n mod 10)])"

declare str_nat.simps [simp del]

definition py_str :: "int \<Rightarrow> string" where
  "py_str i = (if i < 0 then CHR ''-'' # str_nat (nat (- i)) else str_nat (nat i))"

text \<open>
  \<^verbatim>\<open>int(s)\<close> on text: whitespace around the literal is dropped (the characters 9 to
  13 and the blank), one sign is allowed, then decimal digits follow, where single
  underscores may stand between two digits. Anything else raises \<open>ValueError\<close>.

  CPython from 3.11 on also raises \<open>ValueError\<close> for text with more than 4300
  digits. That limit is not part of \<open>py_int\<close>: text of more than 4300 characters is
  outside the model, and a theorem that concludes from \<open>py_int\<close> that text taken from
  a page or from the cache file was converted bounds the length of that text by
  \<open>short_text\<close>.
\<close>

definition is_space :: "char \<Rightarrow> bool" where
  "is_space c = (let n = (of_char c :: nat) in (9 \<le> n \<and> n \<le> 13) \<or> n = 32)"

definition is_digit :: "char \<Rightarrow> bool" where
  "is_digit c = (let n = (of_char c :: nat) in 48 \<le> n \<and> n \<le> 57)"

definition digit_val :: "char \<Rightarrow> nat" where
  "digit_val c = of_char c - 48"

definition strip :: "string \<Rightarrow> string" where
  "strip s = rev (dropWhile is_space (rev (dropWhile is_space s)))"

fun digits_from :: "nat \<Rightarrow> string \<Rightarrow> nat option" where
  "digits_from acc [] = Some acc"
| "digits_from acc (c # cs) =
     (if is_digit c then digits_from (acc * 10 + digit_val c) cs
      else if c = CHR ''_'' then
        (case cs of
           [] \<Rightarrow> None
         | d # ds \<Rightarrow> if is_digit d then digits_from (acc * 10 + digit_val d) ds else None)
      else None)"

definition literal_nat :: "string \<Rightarrow> nat option" where
  "literal_nat s =
     (case s of
        [] \<Rightarrow> None
      | c # cs \<Rightarrow> if is_digit c then digits_from (digit_val c) cs else None)"

definition py_int :: "string \<Rightarrow> error + int" where
  "py_int s =
     (case strip s of
        [] \<Rightarrow> Inl ValueError
      | c # cs \<Rightarrow>
          if c = CHR ''-'' then
            (case literal_nat cs of None \<Rightarrow> Inl ValueError | Some n \<Rightarrow> Inr (- int n))
          else if c = CHR ''+'' then
            (case literal_nat cs of None \<Rightarrow> Inl ValueError | Some n \<Rightarrow> Inr (int n))
          else
            (case literal_nat (c # cs) of None \<Rightarrow> Inl ValueError | Some n \<Rightarrow> Inr (int n)))"

text \<open>Text short enough for the conversion limit never to apply.\<close>

definition short_text :: "string \<Rightarrow> bool" where
  "short_text s = (length s \<le> 4300)"

text \<open>The number a run of digits stands for, read from the left.\<close>

definition decimal :: "nat \<Rightarrow> string \<Rightarrow> nat" where
  "decimal acc ds = foldl (\<lambda>a c. a * 10 + digit_val c) acc ds"

subsection \<open>Dictionaries\<close>

text \<open>
  A Python dict is an association list in insertion order: \<open>map_of d k\<close> is
  \<^verbatim>\<open>d.get(k)\<close>, \<open>AList.update k v d\<close> is \<^verbatim>\<open>d[k] = v\<close> (the value is replaced
  in place when the key is there, the pair is appended otherwise) and
  \<open>py_update c d\<close> is \<^verbatim>\<open>c.update(d)\<close>. A dict holds every key once.
\<close>

definition is_dict :: "('k \<times> 'v) list \<Rightarrow> bool" where
  "is_dict d = distinct (map fst d)"

text \<open>The keys of a dict read from the cache file are short texts.\<close>

definition short_keys :: "(string \<times> 'v) list \<Rightarrow> bool" where
  "short_keys d = list_all (\<lambda>kv. short_text (fst kv)) d"

definition py_update :: "('k \<times> 'v) list \<Rightarrow> ('k \<times> 'v) list \<Rightarrow> ('k \<times> 'v) list" where
  "py_update c d = fold (\<lambda>(k, v). AList.update k v) d c"

text \<open>
  The comprehension \<^verbatim>\<open>{int(k): v for k, v in d.items()}\<close>, used on the years of the
  file (line 133) and on the months of one year (line 157): the items are visited in
  order, the first key that is no integer literal raises.
\<close>

fun int_keys_into :: "(int \<times> 'v) list \<Rightarrow> (string \<times> 'v) list \<Rightarrow> error + (int \<times> 'v) list" where
  "int_keys_into acc [] = Inr acc"
| "int_keys_into acc ((k, v) # kvs) =
     (case py_int k of
        Inl e \<Rightarrow> Inl e
      | Inr n \<Rightarrow> int_keys_into (AList.update n v acc) kvs)"

definition int_keys :: "(string \<times> 'v) list \<Rightarrow> error + (int \<times> 'v) list" where
  "int_keys kvs = int_keys_into [] kvs"

section \<open>Data model\<close>

text \<open>
  The value stored for one month (lines 87 to 91) is a dict with the three keys
  \<^verbatim>\<open>'pre_holidays'\<close>, \<^verbatim>\<open>'weekends'\<close> and \<^verbatim>\<open>'holidays'\<close>, each a tuple of day
  numbers (a list once it went through JSON; \<^verbatim>\<open>in\<close> reads both alike).
\<close>

record month_data =
  pre_holidays :: "int list"
  weekends :: "int list"
  holidays :: "int list"

type_synonym year_data = "(int \<times> month_data) list"

text \<open>\<^verbatim>\<open>self._dict\<close>: year to month to month data, all keys integers.\<close>

type_synonym memory = "(int \<times> year_data) list"

text \<open>
  What \<^verbatim>\<open>json.load\<close> returns for the cache file: the same nesting with text keys.
  The file named \<^verbatim>\<open>cache_name\<close> is absent, or holds text that \<^verbatim>\<open>json.load\<close>
  rejects (a file of length zero is such a text), or holds a JSON object.
\<close>

type_synonym stored_year = "(string \<times> month_data) list"

type_synonym store = "(string \<times> stored_year) list"

datatype cache_file = Absent | Unparsable | Stored store

record datetime =
  year :: int
  month :: int
  day :: int

record DateInfo =
  datetime :: datetime
  is_work :: bool
  is_short :: bool
  is_holiday :: bool
  is_weekend :: bool

text \<open>
  The network is the environment: \<open>net n y\<close> is what happens when, after \<open>n\<close> earlier
  requests, the page of year \<open>y\<close> is requested. \<^verbatim>\<open>request.urlopen\<close> raises or
  returns a response; reading the response raises, or gives bytes that are UTF-8 text
  or not.
\<close>

datatype body = Read_fails | Not_utf8 | Text string

datatype response = Open_fails | Opened body

type_synonym network = "nat \<Rightarrow> int \<Rightarrow> response"

text \<open>
  The state one \<^verbatim>\<open>ProcessCalendar\<close> instance works on: its \<^verbatim>\<open>_dict\<close>, the cache
  file, the years requested from the network so far and what \<^verbatim>\<open>print\<close> wrote.
\<close>

record world =
  dict :: memory
  cache :: cache_file
  requests :: "int list"
  printed :: "error list"

section \<open>The four patterns\<close>

text \<open>
  \<open>split_at_first p s\<close> finds the leftmost occurrence of \<open>p\<close> in \<open>s\<close> and returns the
  text before it and the text after it.
\<close>

fun split_at_first :: "string \<Rightarrow> string \<Rightarrow> (string \<times> string) option" where
  "split_at_first p [] = (if p = [] then Some ([], []) else None)"
| "split_at_first p (c # cs) =
     (if take (length p) (c # cs) = p then Some ([], drop (length p) (c # cs))
      else map_option (\<lambda>(b, a). (c # b, a)) (split_at_first p cs))"

definition table_open :: string where
  \<open>table_open = ''<table class="cal">''\<close>

definition table_close :: string where
  \<open>table_close = ''</table>''\<close>

definition pre_holiday_open :: string where
  \<open>pre_holiday_open = ''<td class="preholiday">''\<close>

definition weekend_open :: string where
  \<open>weekend_open = ''<td class="weekend">''\<close>

definition holiday_open :: string where
  \<open>holiday_open = ''<td class="holiday''\<close>

definition attr_close :: string where
  \<open>attr_close = ''">''\<close>

definition td_close :: string where
  \<open>td_close = ''</td>''\<close>

definition newline :: char where
  "newline = CHR 0x0A"

lemma split_at_first_length:
  "split_at_first p s = Some (b, a) \<Longrightarrow> length b + length p + length a = length s"
proof (induction s arbitrary: b)
  case Nil
  then show ?case by (simp split: if_splits)
next
  case (Cons c cs)
  show ?case
  proof (cases "take (length p) (c # cs) = p")
    case True
    with Cons.prems have b: "b = []" and a: "a = drop (length p) (c # cs)" by simp_all
    from True have "length (take (length p) (c # cs)) = length p" by simp
    then have "length p \<le> length (c # cs)" by simp
    with a b show ?thesis by simp
  next
    case False
    with Cons.prems obtain b' where "split_at_first p cs = Some (b', a)" and "b = c # b'"
      by auto
    with Cons.IH show ?thesis by auto
  qed
qed

text \<open>
  \<^verbatim>\<open>re.compile(r'<table class="cal">(.*?)</table>', re.DOTALL).findall\<close>: the leftmost
  opening tag, the shortest text up to a closing tag, and on from behind that tag.
\<close>

function findall_table :: "string \<Rightarrow> string list" where
  "findall_table s =
     (case split_at_first table_open s of
        None \<Rightarrow> []
      | Some (_, r) \<Rightarrow>
          (case split_at_first table_close r of
             None \<Rightarrow> []
           | Some (b, r') \<Rightarrow> b # findall_table r'))"
  by pat_completeness auto
termination
proof (relation "measure length")
  show "wf (measure length)" by simp
next
  fix s x2 x r x2a b r'
  assume "split_at_first table_open s = Some x2" "(x, r) = x2"
    "split_at_first table_close r = Some x2a" "(b, r') = x2a"
  then have "split_at_first table_open s = Some (x, r)" "split_at_first table_close r = Some (b, r')"
    by simp_all
  from split_at_first_length [OF this(1)] split_at_first_length [OF this(2)]
  show "(r', s) \<in> measure length" by (simp add: table_open_def)
qed

declare findall_table.simps [simp del]

text \<open>
  \<^verbatim>\<open>re.compile(r'<td class="weekend">(.*?)</td>').findall\<close>: as above, but the dot
  matches no newline. An opening tag whose text up to the next closing tag holds a
  newline starts no match, and the search goes on behind that opening tag.
\<close>

function findall_weekend :: "string \<Rightarrow> string list" where
  "findall_weekend s =
     (case split_at_first weekend_open s of
        None \<Rightarrow> []
      | Some (_, r) \<Rightarrow>
          (case split_at_first td_close r of
             None \<Rightarrow> []
           | Some (b, r') \<Rightarrow>
               if newline \<in> set b then findall_weekend r else b # findall_weekend r'))"
  by pat_completeness auto
termination
  by (relation "measure length")
     (auto dest!: split_at_first_length simp: weekend_open_def)

declare findall_weekend.simps [simp del]

text \<open>
  \<^verbatim>\<open>re.compile(r'<td class="holiday.*?">(.*?)</td>').findall\<close>: the class attribute
  may go on after \<^verbatim>\<open>holiday\<close>; it ends at the first \<^verbatim>\<open>">\<close>, and the cell at the
  first closing tag behind that. Neither part holds a newline.
\<close>

function findall_holiday :: "string \<Rightarrow> string list" where
  "findall_holiday s =
     (case split_at_first holiday_open s of
        None \<Rightarrow> []
      | Some (_, r) \<Rightarrow>
          (case split_at_first attr_close r of
             None \<Rightarrow> []
           | Some (a, r1) \<Rightarrow>
               (case split_at_first td_close r1 of
                  None \<Rightarrow> []
                | Some (b, r2) \<Rightarrow>
                    if newline \<in> set a \<or> newline \<in> set b then findall_holiday r
                    else b # findall_holiday r2)))"
  by pat_completeness auto
termination
  by (relation "measure length")
     (auto dest!: split_at_first_length simp: holiday_open_def)

declare findall_holiday.simps [simp del]

text \<open>
  \<^verbatim>\<open>re.compile(r'<td class="preholiday">(\d+)<').findall\<close>: the longest run of digits
  behind the opening tag, which must not be empty and must be followed by \<^verbatim>\<open><\<close>;
  the match takes that character too.
\<close>

function findall_pre_holiday :: "string \<Rightarrow> string list" where
  "findall_pre_holiday s =
     (case split_at_first pre_holiday_open s of
        None \<Rightarrow> []
      | Some (_, r) \<Rightarrow>
          (case dropWhile is_digit r of
             [] \<Rightarrow> findall_pre_holiday r
           | c # r' \<Rightarrow>
               if takeWhile is_digit r \<noteq> [] \<and> c = CHR ''<''
               then takeWhile is_digit r # findall_pre_holiday r'
               else findall_pre_holiday r))"
  by pat_completeness auto
termination
proof (relation "measure length")
  show "wf (measure length)" by simp
next
  fix s x2 x r
  assume "split_at_first pre_holiday_open s = Some x2" "(x, r) = x2"
  then have "split_at_first pre_holiday_open s = Some (x, r)" by simp
  from split_at_first_length [OF this]
  show "(r, s) \<in> measure length" by (simp add: pre_holiday_open_def)
next
  fix s x2 x r c r'
  assume "split_at_first pre_holiday_open s = Some x2" "(x, r) = x2"
    and d: "dropWhile is_digit r = c # r'"
  then have "split_at_first pre_holiday_open s = Some (x, r)" by simp
  from split_at_first_length [OF this] have "length r < length s"
    by (simp add: pre_holiday_open_def)
  moreover have "length (dropWhile is_digit r) \<le> length r"
    by (rule length_dropWhile_le)
  ultimately show "(r', s) \<in> measure length" using d by simp
next
  fix s x2 x r c r'
  assume "split_at_first pre_holiday_open s = Some x2" "(x, r) = x2"
  then have "split_at_first pre_holiday_open s = Some (x, r)" by simp
  from split_at_first_length [OF this]
  show "(r, s) \<in> measure length" by (simp add: pre_holiday_open_def)
qed

declare findall_pre_holiday.simps [simp del]

section \<open>The operations of \<^verbatim>\<open>ProcessCalendar\<close>\<close>

text \<open>
  \<^verbatim>\<open>__get_html\<close> (lines 53 to 73). Only \<^verbatim>\<open>request.urlopen\<close> stands inside the
  \<^verbatim>\<open>try\<close>: its exception is printed and \<^verbatim>\<open>None\<close> returned. Line 73,
  \<^verbatim>\<open>response.read().decode('utf-8')\<close>, stands behind the \<^verbatim>\<open>try\<close>.
\<close>

definition get_html :: "network \<Rightarrow> int \<Rightarrow> world \<Rightarrow> (error + string option) \<times> world" where
  "get_html net y w =
     (let w1 = w\<lparr>requests := requests w @ [y]\<rparr> in
      case net (length (requests w)) y of
        Open_fails \<Rightarrow> (Inr None, w1\<lparr>printed := printed w1 @ [URLError]\<rparr>)
      | Opened Read_fails \<Rightarrow> (Inl IncompleteRead, w1)
      | Opened Not_utf8 \<Rightarrow> (Inl UnicodeDecodeError, w1)
      | Opened (Text html) \<Rightarrow> (Inr (Some html), w1))"

text \<open>\<^verbatim>\<open>tuple(map(int, cells))\<close>: the first cell that is no integer literal raises.\<close>

fun ints_of :: "string list \<Rightarrow> error + int list" where
  "ints_of [] = Inr []"
| "ints_of (s # ss) =
     (case py_int s of
        Inl e \<Rightarrow> Inl e
      | Inr n \<Rightarrow> (case ints_of ss of Inl e \<Rightarrow> Inl e | Inr ns \<Rightarrow> Inr (n # ns)))"

text \<open>The dict display of lines 87 to 91, its three values evaluated in order.\<close>

definition month_of_table :: "string \<Rightarrow> error + month_data" where
  "month_of_table t =
     (case ints_of (findall_pre_holiday t) of
        Inl e \<Rightarrow> Inl e
      | Inr p \<Rightarrow>
          (case ints_of (findall_weekend t) of
             Inl e \<Rightarrow> Inl e
           | Inr we \<Rightarrow>
               (case ints_of (findall_holiday t) of
                  Inl e \<Rightarrow> Inl e
                | Inr h \<Rightarrow> Inr \<lparr>pre_holidays = p, weekends = we, holidays = h\<rparr>)))"

text \<open>
  The loop of lines 86 to 91 over \<^verbatim>\<open>enumerate(tables)\<close>: \<open>n\<close> is the index of the
  next table, \<open>yd\<close> is \<^verbatim>\<open>self._dict[year]\<close>. An exception leaves the months stored
  so far in place.
\<close>

fun fill_months :: "int \<Rightarrow> string list \<Rightarrow> year_data \<Rightarrow> error option \<times> year_data" where
  "fill_months n [] yd = (None, yd)"
| "fill_months n (t # ts) yd =
     (case month_of_table t of
        Inl e \<Rightarrow> (Some e, yd)
      | Inr md \<Rightarrow> fill_months (n + 1) ts (AList.update (n + 1) md yd))"

text \<open>
  \<^verbatim>\<open>__get_year_data\<close> (lines 75 to 91). The year is reset to an empty dict first;
  \<^verbatim>\<open>if html:\<close> skips the loop for \<^verbatim>\<open>None\<close> and for the empty text.
\<close>

definition get_year_data :: "network \<Rightarrow> int \<Rightarrow> world \<Rightarrow> error option \<times> world" where
  "get_year_data net y w =
     (case get_html net y (w\<lparr>dict := AList.update y [] (dict w)\<rparr>) of
        (Inl e, w2) \<Rightarrow> (Some e, w2)
      | (Inr None, w2) \<Rightarrow> (None, w2)
      | (Inr (Some html), w2) \<Rightarrow>
          if html = [] then (None, w2)
          else
            (case fill_months 0 (findall_table html) [] of
               (r, yd) \<Rightarrow> (r, w2\<lparr>dict := AList.update y yd (dict w2)\<rparr>)))"

text \<open>
  \<^verbatim>\<open>json.dump(..., sort_keys=True)\<close> followed by what a later \<^verbatim>\<open>json.load\<close> returns.
  Integer keys are sorted as integers and written as \<^verbatim>\<open>str(key)\<close>. The dict dumped
  at line 136 holds years taken from the file, whose months have text keys already,
  beside years of \<^verbatim>\<open>self._dict\<close>.
\<close>

datatype year_value = Live year_data | Loaded stored_year

fun dump_year :: "year_value \<Rightarrow> stored_year" where
  "dump_year (Live yd) = map (\<lambda>(m, d). (py_str m, d)) (sort_key fst yd)"
| "dump_year (Loaded sy) = sort_key fst sy"

definition json_dump :: "(int \<times> year_value) list \<Rightarrow> store" where
  "json_dump c = map (\<lambda>(y, v). (py_str y, dump_year v)) (sort_key fst c)"

definition live :: "memory \<Rightarrow> (int \<times> year_value) list" where
  "live d = map (\<lambda>(y, yd). (y, Live yd)) d"

definition loaded :: "(int \<times> stored_year) list \<Rightarrow> (int \<times> year_value) list" where
  "loaded c = map (\<lambda>(y, sy). (y, Loaded sy)) c"

text \<open>The dumped dict before its year keys are written as text.\<close>

definition dumped :: "(int \<times> year_value) list \<Rightarrow> (int \<times> stored_year) list" where
  "dumped c = map (\<lambda>(y, v). (y, dump_year v)) (sort_key fst c)"

text \<open>\<^verbatim>\<open>__write_cache_json\<close> (lines 122 to 137).\<close>

definition write_cache_json :: "world \<Rightarrow> error option \<times> world" where
  "write_cache_json w =
     (case cache w of
        Absent \<Rightarrow> (None, w\<lparr>cache := Stored (json_dump (live (dict w)))\<rparr>)
      | Unparsable \<Rightarrow> (Some JSONDecodeError, w)
      | Stored data \<Rightarrow>
          (case int_keys data of
             Inl e \<Rightarrow> (Some e, w)
           | Inr c \<Rightarrow>
               (None, w\<lparr>cache := Stored (json_dump (py_update (loaded c) (live (dict w))))\<rparr>)))"

text \<open>
  \<^verbatim>\<open>__read_cache_json\<close> (lines 139 to 158). \<^verbatim>\<open>not data.get(str(year))\<close> holds for
  a year that is missing and for a year whose dict is empty.
\<close>

definition read_cache_json :: "int \<Rightarrow> world \<Rightarrow> (error + bool) \<times> world" where
  "read_cache_json y w =
     (case cache w of
        Absent \<Rightarrow> (Inr False, w)
      | Unparsable \<Rightarrow> (Inl JSONDecodeError, w)
      | Stored data \<Rightarrow>
          (case map_of data (py_str y) of
             None \<Rightarrow> (Inr False, w)
           | Some sy \<Rightarrow>
               if sy = [] then (Inr False, w)
               else
                 (case int_keys sy of
                    Inl e \<Rightarrow> (Inl e, w)
                  | Inr yd \<Rightarrow> (Inr True, w\<lparr>dict := AList.update y yd (dict w)\<rparr>))))"

text \<open>
  \<^verbatim>\<open>date_info\<close> (lines 93 to 120) in three parts: \<open>resolve\<close> is lines 104 to 107,
  \<open>month_lookup\<close> is the subscript \<^verbatim>\<open>self._dict[dt.year][dt.month]\<close> and \<open>classify\<close>
  is the chain of lines 109 to 118 on the month found.
\<close>

definition resolve :: "network \<Rightarrow> int \<Rightarrow> world \<Rightarrow> error option \<times> world" where
  "resolve net y w =
     (case map_of (dict w) y of
        Some _ \<Rightarrow> (None, w)
      | None \<Rightarrow>
          (case read_cache_json y w of
             (Inl e, w1) \<Rightarrow> (Some e, w1)
           | (Inr True, w1) \<Rightarrow> (None, w1)
           | (Inr False, w1) \<Rightarrow>
               (case get_year_data net y w1 of
                  (Some e, w2) \<Rightarrow> (Some e, w2)
                | (None, w2) \<Rightarrow> write_cache_json w2)))"

definition month_lookup :: "memory \<Rightarrow> datetime \<Rightarrow> error + month_data" where
  "month_lookup d dt =
     (case map_of d (year dt) of
        None \<Rightarrow> Inl KeyError
      | Some yd \<Rightarrow>
          (case map_of yd (month dt) of
             None \<Rightarrow> Inl KeyError
           | Some md \<Rightarrow> Inr md))"

definition classify :: "month_data \<Rightarrow> datetime \<Rightarrow> DateInfo" where
  "classify md dt =
     (let date = \<lparr>datetime = dt, is_work = False, is_short = False,
                  is_holiday = False, is_weekend = False\<rparr> in
      if day dt \<in> set (pre_holidays md) then date\<lparr>is_work := True, is_short := True\<rparr>
      else if day dt \<in> set (holidays md) then date\<lparr>is_holiday := True, is_weekend := True\<rparr>
      else if day dt \<in> set (weekends md) then date\<lparr>is_weekend := True\<rparr>
      else date\<lparr>is_work := True\<rparr>)"

definition date_info :: "network \<Rightarrow> datetime \<Rightarrow> world \<Rightarrow> (error + DateInfo) \<times> world" where
  "date_info net dt w =
     (case resolve net (year dt) w of
        (Some e, w1) \<Rightarrow> (Inl e, w1)
      | (None, w1) \<Rightarrow>
          (case month_lookup (dict w1) dt of
             Inl e \<Rightarrow> (Inl e, w1)
           | Inr md \<Rightarrow> (Inr (classify md dt), w1)))"

section \<open>Example data\<close>

text \<open>
  January as in the scenario of the specification: days 1 to 7 are holidays, day 8 is a
  shortened workday, and the weekend cells list days 1 to 9.
\<close>

definition january :: month_data where
  "january = \<lparr>pre_holidays = [8], weekends = [1, 2, 3, 4, 5, 6, 7, 8, 9],
              holidays = [1, 2, 3, 4, 5, 6, 7]\<rparr>"

definition january_world :: world where
  "january_world =
     \<lparr>dict = [(2024, [(1, january)])], cache = Absent, requests = [], printed = []\<rparr>"

text \<open>A network on which every request fails, and an instance that has just been made.\<close>

definition offline :: network where
  "offline = (\<lambda>n y. Open_fails)"

definition fresh :: "cache_file \<Rightarrow> world" where
  "fresh f = \<lparr>dict = [], cache = f, requests = [], printed = []\<rparr>"







section \<open>Decimal text\<close>

text \<open>\<^verbatim>\<open>int(str(i))\<close> is \<open>i\<close>, so \<^verbatim>\<open>str\<close> is injective on integers.\<close>

lemma is_digit_digit_char: "d < 10 \<Longrightarrow> is_digit (digit_char d)"
  by (simp add: is_digit_def digit_char_def)

lemma digit_val_digit_char: "d < 10 \<Longrightarrow> digit_val (digit_char d) = d"
  by (simp add: digit_val_def digit_char_def)

lemma is_digit_not_space: "is_digit c \<Longrightarrow> \<not> is_space c"
  by (simp add: is_digit_def is_space_def Let_def)

lemma is_digit_not_sign: "is_digit c \<Longrightarrow> c \<noteq> CHR ''-'' \<and> c \<noteq> CHR ''+''"
  by (auto simp: is_digit_def)

lemma str_nat_digits: "c \<in> set (str_nat n) \<Longrightarrow> is_digit c"
proof (induction n arbitrary: c rule: str_nat.induct)
  case (1 n)
  show ?case
  proof (cases "n < 10")
    case True
    with "1.prems" show ?thesis
      by (simp add: str_nat.simps [of n] is_digit_digit_char)
  next
    case False
    with "1.prems" have "c \<in> set (str_nat (n div 10)) \<or> c = digit_char (n mod 10)"
      by (auto simp: str_nat.simps [of n])
    with False "1.IH" show ?thesis
      by (auto simp: is_digit_digit_char)
  qed
qed

lemma str_nat_not_Nil: "str_nat n \<noteq> []"
  by (simp add: str_nat.simps [of n])

lemma digits_from_decimal:
  "(\<And>c. c \<in> set ds \<Longrightarrow> is_digit c) \<Longrightarrow> digits_from acc ds = Some (decimal acc ds)"
  by (induction ds arbitrary: acc) (simp_all add: decimal_def)

lemma decimal_str_nat: "decimal 0 (str_nat n) = n"
proof (induction n rule: str_nat.induct)
  case (1 n)
  show ?case
  proof (cases "n < 10")
    case True
    then show ?thesis
      by (simp add: str_nat.simps [of n] decimal_def digit_val_digit_char)
  next
    case False
    with "1.IH" have "decimal 0 (str_nat (n div 10)) = n div 10" by simp
    with False show ?thesis
      by (simp add: str_nat.simps [of n] decimal_def digit_val_digit_char)
  qed
qed

lemma literal_nat_str_nat: "literal_nat (str_nat n) = Some n"
proof -
  obtain c cs where s: "str_nat n = c # cs"
    using str_nat_not_Nil [of n] by (cases "str_nat n") auto
  have d: "\<And>x. x \<in> set (c # cs) \<Longrightarrow> is_digit x"
    using str_nat_digits [of _ n] s by simp
  then have "digits_from (digit_val c) cs = Some (decimal (digit_val c) cs)"
    by (intro digits_from_decimal) simp
  also have "decimal (digit_val c) cs = decimal 0 (c # cs)"
    by (simp add: decimal_def)
  finally show ?thesis
    using d s decimal_str_nat [of n] by (simp add: literal_nat_def)
qed

lemma strip_no_space:
  assumes "s \<noteq> []" and "\<not> is_space (hd s)" and "\<not> is_space (last s)"
  shows "strip s = s"
proof -
  from assms have "dropWhile is_space s = s"
    by (cases s) auto
  moreover from assms have "dropWhile is_space (rev s) = rev s"
    by (cases "rev s") (auto simp: last_rev [symmetric] simp del: last_rev)
  ultimately show ?thesis by (simp add: strip_def)
qed

lemma strip_str_nat: "strip (str_nat n) = str_nat n"
proof (rule strip_no_space)
  show "str_nat n \<noteq> []" by (rule str_nat_not_Nil)
  show "\<not> is_space (hd (str_nat n))"
    using str_nat_not_Nil [of n] by (intro is_digit_not_space str_nat_digits [of _ n]) simp
  show "\<not> is_space (last (str_nat n))"
    using str_nat_not_Nil [of n] by (intro is_digit_not_space str_nat_digits [of _ n]) simp
qed

lemma strip_minus_str_nat: "strip (CHR ''-'' # str_nat n) = CHR ''-'' # str_nat n"
proof (rule strip_no_space)
  show "CHR ''-'' # str_nat n \<noteq> []" by simp
  show "\<not> is_space (hd (CHR ''-'' # str_nat n))" by (simp add: is_space_def)
  show "\<not> is_space (last (CHR ''-'' # str_nat n))"
    using str_nat_not_Nil [of n]
    by (simp add: is_digit_not_space str_nat_digits [of _ n])
qed

lemma py_int_py_str: "py_int (py_str i) = Inr i"
proof (cases "i < 0")
  case True
  then show ?thesis
    by (simp add: py_str_def py_int_def strip_minus_str_nat literal_nat_str_nat)
next
  case False
  obtain c cs where s: "str_nat (nat i) = c # cs"
    using str_nat_not_Nil [of "nat i"] by (cases "str_nat (nat i)") auto
  then have "is_digit c" using str_nat_digits [of c "nat i"] by simp
  then have "c \<noteq> CHR ''-''" "c \<noteq> CHR ''+''" using is_digit_not_sign by auto
  with False s literal_nat_str_nat [of "nat i"] strip_str_nat [of "nat i"] show ?thesis
    by (simp add: py_str_def py_int_def)
qed

lemma py_str_inj: "py_str i = py_str j \<Longrightarrow> i = j"
proof -
  assume "py_str i = py_str j"
  then have "py_int (py_str i) = py_int (py_str j)" by simp
  then show "i = j" by (simp add: py_int_py_str)
qed

section \<open>Facts about dictionaries\<close>

text \<open>Sorting by key is stable, so it changes no lookup, even when a key occurs twice.\<close>

lemma map_of_insort_key:
  "map_of (insort_key fst x xs) k = (if k = fst x then Some (snd x) else map_of xs k)"
proof (induction xs)
  case Nil
  then show ?case by (cases x) simp
next
  case (Cons y ys)
  then show ?case by (cases x; cases y) auto
qed

lemma map_of_sort_key: "map_of (sort_key fst xs) k = map_of xs k"
proof (induction xs)
  case Nil
  then show ?case by simp
next
  case (Cons x xs)
  then show ?case by (cases x) (simp add: map_of_insort_key)
qed

lemma map_of_keys_mapped:
  assumes "\<forall>a b. f a = f b \<longrightarrow> a = b"
  shows "map_of (map (\<lambda>(k, v). (f k, g v)) xs) (f k) = map_option g (map_of xs k)"
  using assms by (induction xs) auto

lemma map_of_py_update:
  "distinct (map fst d) \<Longrightarrow>
     map_of (py_update c d) k = (case map_of d k of Some v \<Rightarrow> Some v | None \<Rightarrow> map_of c k)"
proof (induction d arbitrary: c)
  case Nil
  then show ?case by (simp add: py_update_def)
next
  case (Cons x d)
  obtain a v where x: "x = (a, v)" by (cases x)
  from Cons.prems x have "a \<notin> fst ` set d" and d: "distinct (map fst d)" by auto
  then have n: "map_of d a = None" by (simp add: map_of_eq_None_iff)
  have "map_of (py_update c (x # d)) k = map_of (py_update (AList.update a v c) d) k"
    by (simp add: py_update_def x)
  also have "\<dots> = (case map_of d k of Some v \<Rightarrow> Some v | None \<Rightarrow> map_of (AList.update a v c) k)"
    by (rule Cons.IH [OF d])
  also have "\<dots> = (case map_of (x # d) k of Some v \<Rightarrow> Some v | None \<Rightarrow> map_of c k)"
    using n by (auto simp: x update_conv' split: option.splits)
  finally show ?case .
qed

lemma distinct_py_update:
  "distinct (map fst c) \<Longrightarrow> distinct (map fst (py_update c d))"
  unfolding py_update_def
  by (induction d arbitrary: c) (auto simp: distinct_update)

lemma py_update_Nil: "distinct (map fst d) \<Longrightarrow> py_update [] d = d"
proof -
  have "distinct (map fst (c @ d)) \<Longrightarrow> py_update c d = c @ d" for c
  proof (induction d arbitrary: c)
    case Nil
    then show ?case by (simp add: py_update_def)
  next
    case (Cons x d)
    obtain k v where x: "x = (k, v)" by (cases x)
    from Cons.prems x have "k \<notin> fst ` set c" by auto
    then have u: "AList.update k v c = c @ [(k, v)]"
      by (induction c) auto
    from Cons.prems have "distinct (map fst ((c @ [x]) @ d))" by simp
    from Cons.IH [OF this] u show ?case by (simp add: py_update_def x)
  qed
  from this [of "[]"] show "distinct (map fst d) \<Longrightarrow> py_update [] d = d" by simp
qed

lemma int_keys_into_py_str:
  "int_keys_into acc (map (\<lambda>(k, v). (py_str k, v)) xs) = Inr (py_update acc xs)"
  by (induction xs arbitrary: acc) (auto simp: py_update_def py_int_py_str)

lemma int_keys_py_str:
  "distinct (map fst xs) \<Longrightarrow> int_keys (map (\<lambda>(k, v). (py_str k, v)) xs) = Inr xs"
  by (simp add: int_keys_def int_keys_into_py_str py_update_Nil)

lemma int_keys_into_distinct:
  "int_keys_into acc kvs = Inr c \<Longrightarrow> distinct (map fst acc) \<Longrightarrow> distinct (map fst c)"
  by (induction acc kvs rule: int_keys_into.induct)
     (auto simp: distinct_update split: sum.splits)

lemma int_keys_distinct: "int_keys kvs = Inr c \<Longrightarrow> distinct (map fst c)"
  using int_keys_into_distinct [of "[]" kvs c] by (simp add: int_keys_def)

lemma distinct_insort_key_fst:
  "distinct (map fst (insort_key fst x xs)) = (fst x \<notin> fst ` set xs \<and> distinct (map fst xs))"
  by (induction xs) (auto simp: set_insort_key)

lemma distinct_sort_key_fst:
  "distinct (map fst xs) \<Longrightarrow> distinct (map fst (sort_key fst xs))"
  by (induction xs) (auto simp: distinct_insort_key_fst)

section \<open>Facts about the operations\<close>

lemma map_of_live: "map_of (live d) y = map_option Live (map_of d y)"
  by (induction d) (auto simp: live_def)

lemma map_of_loaded: "map_of (loaded c) y = map_option Loaded (map_of c y)"
  by (induction c) (auto simp: loaded_def)

lemma distinct_live: "map fst (live d) = map fst d"
  by (induction d) (auto simp: live_def)

lemma distinct_loaded: "map fst (loaded c) = map fst c"
  by (induction c) (auto simp: loaded_def)

lemma json_dump_dumped: "json_dump c = map (\<lambda>(y, sy). (py_str y, sy)) (dumped c)"
  by (simp add: json_dump_def dumped_def case_prod_unfold)

lemma map_of_dumped: "map_of (dumped c) y = map_option dump_year (map_of c y)"
proof -
  have "map_of (map (\<lambda>(y, v). (y, dump_year v)) xs) y = map_option dump_year (map_of xs y)" for xs
    by (induction xs) auto
  then show ?thesis by (simp add: dumped_def map_of_sort_key)
qed

lemma map_fst_dumped: "map fst (dumped c) = map fst (sort_key fst c)"
  unfolding dumped_def by (induction "sort_key fst c") auto

lemma distinct_dumped: "distinct (map fst c) \<Longrightarrow> distinct (map fst (dumped c))"
  by (simp only: map_fst_dumped distinct_sort_key_fst)

lemma map_of_json_dump:
  "map_of (json_dump c) (py_str y) = map_option dump_year (map_of c y)"
proof -
  have "map_of (map (\<lambda>(k, v). (py_str k, id v)) (dumped c)) (py_str y)
      = map_option id (map_of (dumped c) y)"
    by (rule map_of_keys_mapped) (auto dest: py_str_inj)
  then show ?thesis by (simp add: json_dump_dumped map_of_dumped option.map_id)
qed

lemma int_keys_json_dump:
  "distinct (map fst c) \<Longrightarrow> int_keys (json_dump c) = Inr (dumped c)"
  by (simp add: json_dump_dumped int_keys_py_str distinct_dumped)

lemma map_of_dump_live:
  "map_of (dump_year (Live yd)) (py_str m) = map_of yd m"
proof -
  have "map_of (map (\<lambda>(k, v). (py_str k, id v)) (sort_key fst yd)) (py_str m)
      = map_option id (map_of (sort_key fst yd) m)"
    by (rule map_of_keys_mapped) (auto dest: py_str_inj)
  then show ?thesis by (simp add: map_of_sort_key option.map_id)
qed

lemma map_of_dump_loaded: "map_of (dump_year (Loaded sy)) k = map_of sy k"
  by (simp add: map_of_sort_key)

lemma write_cache_json_Stored:
  assumes "is_dict (dict w)" and "cache w = Stored S" and "int_keys S = Inr C"
  shows "write_cache_json w =
           (None, w\<lparr>cache := Stored (json_dump (py_update (loaded C) (live (dict w))))\<rparr>)"
    and "map_of (json_dump (py_update (loaded C) (live (dict w)))) (py_str y) =
           (case map_of (dict w) y of
              Some yd \<Rightarrow> Some (dump_year (Live yd))
            | None \<Rightarrow> map_option (\<lambda>sy. dump_year (Loaded sy)) (map_of C y))"
proof -
  show "write_cache_json w =
           (None, w\<lparr>cache := Stored (json_dump (py_update (loaded C) (live (dict w))))\<rparr>)"
    using assms by (simp add: write_cache_json_def)
  have "distinct (map fst (live (dict w)))"
    using assms(1) by (simp add: distinct_live is_dict_def)
  then show "map_of (json_dump (py_update (loaded C) (live (dict w)))) (py_str y) =
           (case map_of (dict w) y of
              Some yd \<Rightarrow> Some (dump_year (Live yd))
            | None \<Rightarrow> map_option (\<lambda>sy. dump_year (Loaded sy)) (map_of C y))"
    by (simp add: map_of_json_dump map_of_py_update map_of_live map_of_loaded
        option.map_comp comp_def split: option.splits)
qed

lemma read_cache_json_False: "read_cache_json y w = (Inr False, w1) \<Longrightarrow> w1 = w"
  by (auto simp: read_cache_json_def split: cache_file.splits option.splits if_splits sum.splits)

lemma write_cache_json_keeps:
  "write_cache_json w = (r, w1) \<Longrightarrow>
     dict w1 = dict w \<and> requests w1 = requests w \<and> printed w1 = printed w"
  by (auto simp: write_cache_json_def split: cache_file.splits sum.splits)

lemma get_year_data_open_fails:
  "net (length (requests w)) y = Open_fails \<Longrightarrow>
     get_year_data net y w =
       (None, w\<lparr>dict := AList.update y [] (dict w), requests := requests w @ [y],
                 printed := printed w @ [URLError]\<rparr>)"
  by (simp add: get_year_data_def get_html_def)

lemma write_cache_json_shape:
  assumes "write_cache_json w = (None, w1)" and "is_dict (dict w)"
  shows "\<exists>c. cache w1 = Stored (json_dump c) \<and> distinct (map fst c)
           \<and> (\<forall>y yd. map_of (dict w) y = Some yd \<longrightarrow> map_of c y = Some (Live yd))"
proof (cases "cache w")
  case Absent
  with assms have "cache w1 = Stored (json_dump (live (dict w)))"
    by (auto simp: write_cache_json_def)
  moreover have "distinct (map fst (live (dict w)))"
    using assms(2) by (simp add: distinct_live is_dict_def)
  ultimately show ?thesis by (auto simp: map_of_live)
next
  case Unparsable
  with assms show ?thesis by (simp add: write_cache_json_def)
next
  case (Stored S)
  with assms obtain C where C: "int_keys S = Inr C"
    by (auto simp: write_cache_json_def split: sum.splits)
  let ?c = "py_update (loaded C) (live (dict w))"
  from Stored C assms have "cache w1 = Stored (json_dump ?c)"
    by (auto simp: write_cache_json_def)
  moreover have "distinct (map fst ?c)"
    using int_keys_distinct [OF C] by (simp add: distinct_py_update distinct_loaded)
  moreover have "distinct (map fst (live (dict w)))"
    using assms(2) by (simp add: distinct_live is_dict_def)
  ultimately show ?thesis by (auto simp: map_of_py_update map_of_live)
qed

lemma write_twice:
  assumes "A \<noteq> B"
    and "write_cache_json \<lparr>dict = [(A, ya)], cache = f, requests = rA, printed = pA\<rparr> = (None, wA)"
  shows "\<exists>S2. write_cache_json \<lparr>dict = [(B, yb)], cache = cache wA, requests = rB, printed = pB\<rparr>
             = (None, \<lparr>dict = [(B, yb)], cache = Stored S2, requests = rB, printed = pB\<rparr>)
           \<and> map_of S2 (py_str B) = Some (dump_year (Live yb))
           \<and> map_of S2 (py_str A) = Some (dump_year (Loaded (dump_year (Live ya))))"
proof -
  from write_cache_json_shape [OF assms(2)] obtain c
    where c: "cache wA = Stored (json_dump c)" and d: "distinct (map fst c)"
      and a: "map_of c A = Some (Live ya)"
    by (auto simp: is_dict_def)
  let ?w = "\<lparr>dict = [(B, yb)], cache = cache wA, requests = rB, printed = pB\<rparr>"
  have i: "int_keys (json_dump c) = Inr (dumped c)" using d by (rule int_keys_json_dump)
  have w: "is_dict (dict ?w)" "cache ?w = Stored (json_dump c)"
    by (simp_all add: is_dict_def c)
  let ?S2 = "json_dump (py_update (loaded (dumped c)) (live (dict ?w)))"
  have "write_cache_json ?w = (None, ?w\<lparr>cache := Stored ?S2\<rparr>)"
    by (rule write_cache_json_Stored(1) [OF w i])
  moreover have "map_of ?S2 (py_str B) = Some (dump_year (Live yb))"
    using write_cache_json_Stored(2) [OF w i, of B] by simp
  moreover have "map_of ?S2 (py_str A) = Some (dump_year (Loaded (dump_year (Live ya))))"
    using write_cache_json_Stored(2) [OF w i, of A] assms(1) a by (simp add: map_of_dumped)
  ultimately show ?thesis by simp
qed

lemma int_keys_dump_live:
  "is_dict yd \<Longrightarrow> int_keys (dump_year (Live yd)) = Inr (sort_key fst yd)"
  by (simp add: int_keys_py_str distinct_sort_key_fst is_dict_def)

lemma dump_live_Nil: "dump_year (Live yd) = [] \<longleftrightarrow> yd = []"
proof -
  have "length (sort_key fst yd) = length yd" by simp
  then have "sort_key fst yd = [] \<longleftrightarrow> yd = []" by (metis length_0_conv)
  then show ?thesis by simp
qed

lemma get_year_data_requests:
  "get_year_data net y w = (r, w1) \<Longrightarrow> requests w1 = requests w @ [y]"
  by (auto simp: get_year_data_def get_html_def Let_def
      split: response.splits body.splits if_splits prod.splits)

lemma failed_fetch_persists_empty:
  assumes a: "is_dict (dict u) \<and> map_of (dict u) y = None
       \<and> fst (read_cache_json y u) = Inr False
       \<and> net (length (requests u)) y = Open_fails \<and> resolve net y u = (None, u')"
  shows "map_of (dict u') y = Some []
          \<and> (\<exists>S'. cache u' = Stored S' \<and> map_of S' (py_str y) = Some [])"
proof -
  obtain w0 where "read_cache_json y u = (Inr False, w0)"
    using a by (cases "read_cache_json y u") auto
  then have r: "read_cache_json y u = (Inr False, u)"
    by (auto dest: read_cache_json_False)
  let ?w = "u\<lparr>dict := AList.update y [] (dict u), requests := requests u @ [y],
                 printed := printed u @ [URLError]\<rparr>"
  have g: "get_year_data net y u = (None, ?w)"
    using a by (simp add: get_year_data_open_fails)
  have "resolve net y u = write_cache_json ?w"
    using a by (simp add: resolve_def r g)
  with a have wr: "write_cache_json ?w = (None, u')" by simp
  have d: "is_dict (dict ?w)"
    using a by (simp add: is_dict_def distinct_update)
  have m: "map_of (dict ?w) y = Some []" by (simp add: update_conv')
  from write_cache_json_shape [OF wr d] m obtain c
    where c: "cache u' = Stored (json_dump c)" and "map_of c y = Some (Live [])"
    by blast
  then have "map_of (json_dump c) (py_str y) = Some []"
    by (simp add: map_of_json_dump)
  moreover from wr have "dict u' = dict ?w" by (auto dest: write_cache_json_keeps)
  ultimately show "map_of (dict u') y = Some []
          \<and> (\<exists>S'. cache u' = Stored S' \<and> map_of S' (py_str y) = Some [])"
    using c m by simp
qed














section \<open>Classification\<close>

text \<open>
  C1. When the year has been resolved and holds the month of the date, \<open>date_info\<close>
  returns the classification fixed by the first of these that applies: the day is in
  \<open>pre_holidays\<close> (work and short, neither holiday nor weekend, whatever the other two
  sets hold); the day is in \<open>holidays\<close> (holiday and weekend); the day is in
  \<open>weekends\<close> (weekend only); none of them (work only).
\<close>

theorem classify_precedence:
  assumes "resolve net (year dt) w = (None, w1)"
    and "map_of (dict w1) (year dt) = Some yd"
    and "map_of yd (month dt) = Some md"
  shows "date_info net dt w =
    (Inr (if day dt \<in> set (pre_holidays md) then
            \<lparr>datetime = dt, is_work = True, is_short = True,
             is_holiday = False, is_weekend = False\<rparr>
          else if day dt \<in> set (holidays md) then
            \<lparr>datetime = dt, is_work = False, is_short = False,
             is_holiday = True, is_weekend = True\<rparr>
          else if day dt \<in> set (weekends md) then
            \<lparr>datetime = dt, is_work = False, is_short = False,
             is_holiday = False, is_weekend = True\<rparr>
          else
            \<lparr>datetime = dt, is_work = True, is_short = False,
             is_holiday = False, is_weekend = False\<rparr>),
     w1)"
  using assms by (simp add: date_info_def month_lookup_def classify_def Let_def)

text \<open>
  The January scenario: day 1 is holiday and weekend, day 8 is work and short, day 9 is
  weekend only, day 10 is work only.
\<close>

theorem classify_precedence_january:
  "date_info offline \<lparr>year = 2024, month = 1, day = 1\<rparr> january_world =
     (Inr \<lparr>datetime = \<lparr>year = 2024, month = 1, day = 1\<rparr>, is_work = False,
           is_short = False, is_holiday = True, is_weekend = True\<rparr>, january_world)
   \<and> date_info offline \<lparr>year = 2024, month = 1, day = 8\<rparr> january_world =
     (Inr \<lparr>datetime = \<lparr>year = 2024, month = 1, day = 8\<rparr>, is_work = True,
           is_short = True, is_holiday = False, is_weekend = False\<rparr>, january_world)
   \<and> date_info offline \<lparr>year = 2024, month = 1, day = 9\<rparr> january_world =
     (Inr \<lparr>datetime = \<lparr>year = 2024, month = 1, day = 9\<rparr>, is_work = False,
           is_short = False, is_holiday = False, is_weekend = True\<rparr>, january_world)
   \<and> date_info offline \<lparr>year = 2024, month = 1, day = 10\<rparr> january_world =
     (Inr \<lparr>datetime = \<lparr>year = 2024, month = 1, day = 10\<rparr>, is_work = True,
           is_short = False, is_holiday = False, is_weekend = False\<rparr>, january_world)"
proof -
  have r: "resolve offline (year \<lparr>year = 2024, month = 1, day = d\<rparr>) january_world
      = (None, january_world)" for d
    by (simp add: resolve_def january_world_def)
  have y: "map_of (dict january_world) (year \<lparr>year = 2024, month = 1, day = d\<rparr>)
      = Some [(1, january)]" for d
    by (simp add: january_world_def)
  have m: "map_of [(1, january)] (month \<lparr>year = 2024, month = 1, day = d\<rparr>)
      = Some january" for d
    by simp
  show ?thesis
    using classify_precedence [OF r y m, of 1] classify_precedence [OF r y m, of 8]
      classify_precedence [OF r y m, of 9] classify_precedence [OF r y m, of 10]
    by (simp add: january_def)
qed

text \<open>
  C9. In every result that \<open>date_info\<close> returns, \<open>is_holiday\<close> implies \<open>is_weekend\<close>,
  and \<open>is_holiday\<close> and \<open>is_work\<close> are never both set.
\<close>

theorem holiday_flags:
  "date_info net dt w = (Inr d, w') \<Longrightarrow>
     (is_holiday d \<longrightarrow> is_weekend d) \<and> \<not> (is_holiday d \<and> is_work d)"
proof -
  assume "date_info net dt w = (Inr d, w')"
  then obtain md where "d = classify md dt"
    by (auto simp: date_info_def split: prod.splits option.splits sum.splits)
  then show ?thesis by (simp add: classify_def Let_def)
qed

theorem holiday_flags_january:
  "date_info offline \<lparr>year = 2024, month = 1, day = 3\<rparr> january_world =
     (Inr \<lparr>datetime = \<lparr>year = 2024, month = 1, day = 3\<rparr>, is_work = False,
           is_short = False, is_holiday = True, is_weekend = True\<rparr>, january_world)
   \<and> is_weekend \<lparr>datetime = \<lparr>year = 2024, month = 1, day = 3\<rparr>, is_work = False,
           is_short = False, is_holiday = True, is_weekend = True\<rparr>
   \<and> \<not> is_work \<lparr>datetime = \<lparr>year = 2024, month = 1, day = 3\<rparr>, is_work = False,
           is_short = False, is_holiday = True, is_weekend = True\<rparr>"
proof -
  have d: "date_info offline \<lparr>year = 2024, month = 1, day = 3\<rparr> january_world =
     (Inr \<lparr>datetime = \<lparr>year = 2024, month = 1, day = 3\<rparr>, is_work = False,
           is_short = False, is_holiday = True, is_weekend = True\<rparr>, january_world)"
    by (simp add: date_info_def resolve_def january_world_def month_lookup_def
        classify_def january_def Let_def)
  from holiday_flags [OF d] d show ?thesis by simp
qed

text \<open>
  C2. When the resolved year does not hold the month of the date, \<open>date_info\<close> fails
  with \<open>KeyError\<close>. After a request that could not be opened the year is the empty
  dict, so the call fails for every month of that year. No returned classification is a
  default: whenever \<open>date_info\<close> returns one, the month is in the year it resolved.
\<close>

theorem missing_month_fails:
  "(resolve net (year dt) w = (None, w1) \<and> map_of (dict w1) (year dt) = Some yd
      \<and> map_of yd (month dt) = None
      \<longrightarrow> date_info net dt w = (Inl KeyError, w1))
   \<and> (map_of (dict w) (year dt) = None \<and> fst (read_cache_json (year dt) w) = Inr False
      \<and> net (length (requests w)) (year dt) = Open_fails
      \<longrightarrow> (\<exists>e w'. date_info net dt w = (Inl e, w') \<and> map_of (dict w') (year dt) = Some []))
   \<and> (date_info net dt w = (Inr d, w')
      \<longrightarrow> (\<exists>yd md. map_of (dict w') (year dt) = Some yd \<and> map_of yd (month dt) = Some md))"
proof (intro conjI impI)
  assume "resolve net (year dt) w = (None, w1) \<and> map_of (dict w1) (year dt) = Some yd
      \<and> map_of yd (month dt) = None"
  then show "date_info net dt w = (Inl KeyError, w1)"
    by (simp add: date_info_def month_lookup_def)
next
  assume a: "map_of (dict w) (year dt) = None \<and> fst (read_cache_json (year dt) w) = Inr False
      \<and> net (length (requests w)) (year dt) = Open_fails"
  obtain w0 where r: "read_cache_json (year dt) w = (Inr False, w0)"
    using a by (cases "read_cache_json (year dt) w") auto
  then have w0: "w0 = w" by (rule read_cache_json_False)
  let ?w2 = "w\<lparr>dict := AList.update (year dt) [] (dict w), requests := requests w @ [year dt],
                 printed := printed w @ [URLError]\<rparr>"
  have g: "get_year_data net (year dt) w = (None, ?w2)"
    using a by (simp add: get_year_data_open_fails)
  obtain r3 w3 where wr: "write_cache_json ?w2 = (r3, w3)" by (cases "write_cache_json ?w2")
  then have d3: "dict w3 = AList.update (year dt) [] (dict w)"
    by (auto dest: write_cache_json_keeps)
  have res: "resolve net (year dt) w = (r3, w3)"
    using a r w0 g wr by (simp add: resolve_def)
  have m: "map_of (dict w3) (year dt) = Some []"
    by (simp add: d3 update_conv')
  show "\<exists>e w'. date_info net dt w = (Inl e, w') \<and> map_of (dict w') (year dt) = Some []"
  proof (cases r3)
    case None
    with res m have "date_info net dt w = (Inl KeyError, w3)"
      by (simp add: date_info_def month_lookup_def)
    with m show ?thesis by blast
  next
    case (Some e)
    with res have "date_info net dt w = (Inl e, w3)"
      by (simp add: date_info_def)
    with m show ?thesis by blast
  qed
next
  assume "date_info net dt w = (Inr d, w')"
  then show "\<exists>yd md. map_of (dict w') (year dt) = Some yd \<and> map_of yd (month dt) = Some md"
    by (auto simp: date_info_def month_lookup_def split: prod.splits option.splits sum.splits)
qed

theorem missing_month_fails_offline:
  "resolve offline 2024 (fresh Absent) =
     (None, \<lparr>dict = [(2024, [])], cache = Stored [(''2024'', [])], requests = [2024],
             printed = [URLError]\<rparr>)
   \<and> map_of [(2024::int, [])] 2024 = Some ([] :: year_data)
   \<and> map_of ([] :: year_data) 5 = None
   \<and> fst (read_cache_json 2024 (fresh Absent)) = Inr False
   \<and> offline 0 2024 = Open_fails
   \<and> date_info offline \<lparr>year = 2024, month = 5, day = 1\<rparr> (fresh Absent) =
     (Inl KeyError, \<lparr>dict = [(2024, [])], cache = Stored [(''2024'', [])], requests = [2024],
             printed = [URLError]\<rparr>)"
proof -
  let ?w1 = "\<lparr>dict = [(2024, [])], cache = Stored [(''2024'', [])], requests = [2024],
             printed = [URLError]\<rparr>"
  have s: "py_str 2024 = ''2024''" by code_simp
  have r: "resolve offline 2024 (fresh Absent) = (None, ?w1)"
    by (simp add: resolve_def fresh_def read_cache_json_def get_year_data_def get_html_def
        offline_def write_cache_json_def json_dump_def live_def s)
  have "date_info offline \<lparr>year = 2024, month = 5, day = 1\<rparr> (fresh Absent) = (Inl KeyError, ?w1)"
    using missing_month_fails [of offline "\<lparr>year = 2024, month = 5, day = 1\<rparr>" "fresh Absent" ?w1 "[]"] r
    by simp
  with r show ?thesis
    by (simp add: read_cache_json_def fresh_def offline_def)
qed

section \<open>The cache file\<close>

text \<open>
  C3. A write over a file that holds a JSON object whose year keys are integer literals
  (short ones, so that the conversion limit does not apply) succeeds, and the new file holds, under \<^verbatim>\<open>str(y)\<close>, the dumped data of \<open>y\<close> from
  \<^verbatim>\<open>self._dict\<close> when \<open>y\<close> is a year of \<^verbatim>\<open>self._dict\<close>, else the data the file
  held for \<open>y\<close> (its month keys sorted again), else nothing. Here \<open>C\<close> is the file's
  mapping as line 133 reads it. Consequently, writing with only year \<open>A\<close> in memory
  and then with only another year \<open>B\<close> in memory leaves a file that holds the data of
  \<open>B\<close> and, month for month, the data of \<open>A\<close>.
\<close>

theorem write_merges:
  "(is_dict (dict w) \<and> cache w = Stored S \<and> short_keys S \<and> int_keys S = Inr C \<longrightarrow>
      (\<exists>S'. write_cache_json w = (None, w\<lparr>cache := Stored S'\<rparr>)
         \<and> (\<forall>y. map_of S' (py_str y) =
               (case map_of (dict w) y of
                  Some yd \<Rightarrow> Some (dump_year (Live yd))
                | None \<Rightarrow> map_option (\<lambda>sy. dump_year (Loaded sy)) (map_of C y)))))
   \<and> (A \<noteq> B \<and> (f = Absent \<or> (\<exists>S0. f = Stored S0 \<and> short_keys S0)) \<and>
       write_cache_json \<lparr>dict = [(A, ya)], cache = f, requests = rA, printed = pA\<rparr> = (None, wA)
      \<longrightarrow>
      (\<exists>S2. write_cache_json \<lparr>dict = [(B, yb)], cache = cache wA, requests = rB, printed = pB\<rparr>
             = (None, \<lparr>dict = [(B, yb)], cache = Stored S2, requests = rB, printed = pB\<rparr>)
         \<and> map_of S2 (py_str B) = Some (dump_year (Live yb))
         \<and> (\<exists>sa. map_of S2 (py_str A) = Some sa \<and> (\<forall>m. map_of sa (py_str m) = map_of ya m))))"
proof (intro conjI impI)
  assume a: "is_dict (dict w) \<and> cache w = Stored S \<and> short_keys S \<and> int_keys S = Inr C"
  then have 1: "is_dict (dict w)" and 2: "cache w = Stored S" and 3: "int_keys S = Inr C"
    by simp_all
  show "\<exists>S'. write_cache_json w = (None, w\<lparr>cache := Stored S'\<rparr>)
         \<and> (\<forall>y. map_of S' (py_str y) =
               (case map_of (dict w) y of
                  Some yd \<Rightarrow> Some (dump_year (Live yd))
                | None \<Rightarrow> map_option (\<lambda>sy. dump_year (Loaded sy)) (map_of C y)))"
    using write_cache_json_Stored [OF 1 2 3] by blast
next
  assume a: "A \<noteq> B \<and> (f = Absent \<or> (\<exists>S0. f = Stored S0 \<and> short_keys S0)) \<and>
       write_cache_json \<lparr>dict = [(A, ya)], cache = f, requests = rA, printed = pA\<rparr> = (None, wA)"
  then have 1: "A \<noteq> B" and 2: "write_cache_json \<lparr>dict = [(A, ya)], cache = f, requests = rA, printed = pA\<rparr> = (None, wA)"
    by simp_all
  from write_twice [OF 1 2, of yb rB pB] obtain S2 where
    s: "write_cache_json \<lparr>dict = [(B, yb)], cache = cache wA, requests = rB, printed = pB\<rparr>
             = (None, \<lparr>dict = [(B, yb)], cache = Stored S2, requests = rB, printed = pB\<rparr>)"
      "map_of S2 (py_str B) = Some (dump_year (Live yb))"
      "map_of S2 (py_str A) = Some (dump_year (Loaded (dump_year (Live ya))))"
    by blast
  have "\<forall>m. map_of (dump_year (Loaded (dump_year (Live ya)))) (py_str m) = map_of ya m"
    by (simp only: map_of_dump_loaded map_of_dump_live) simp
  with s show "\<exists>S2. write_cache_json \<lparr>dict = [(B, yb)], cache = cache wA, requests = rB, printed = pB\<rparr>
             = (None, \<lparr>dict = [(B, yb)], cache = Stored S2, requests = rB, printed = pB\<rparr>)
         \<and> map_of S2 (py_str B) = Some (dump_year (Live yb))
         \<and> (\<exists>sa. map_of S2 (py_str A) = Some sa \<and> (\<forall>m. map_of sa (py_str m) = map_of ya m))"
    by blast
qed

theorem write_merges_two_years:
  "is_dict [(2025 :: int, [(1 :: int, january)])]
   \<and> short_keys [(''2024'', [(''1'', january)])]
   \<and> int_keys [(''2024'', [(''1'', january)])] = Inr [(2024, [(''1'', january)])]
   \<and> (\<exists>S'. write_cache_json
          \<lparr>dict = [(2025, [(1, january)])], cache = Stored [(''2024'', [(''1'', january)])],
           requests = [], printed = []\<rparr>
        = (None, \<lparr>dict = [(2025, [(1, january)])], cache = Stored S',
                  requests = [], printed = []\<rparr>)
      \<and> map_of S' ''2025'' = Some [(''1'', january)]
      \<and> map_of S' ''2024'' = Some [(''1'', january)]
      \<and> map_of S' ''2023'' = None)
   \<and> (2024 :: int) \<noteq> 2025
   \<and> write_cache_json \<lparr>dict = [(2024, [(1, january)])], cache = Absent,
                         requests = [], printed = []\<rparr>
       = (None, \<lparr>dict = [(2024, [(1, january)])], cache = Stored [(''2024'', [(''1'', january)])],
                         requests = [], printed = []\<rparr>)
   \<and> (\<exists>S2. write_cache_json
          \<lparr>dict = [(2025, [(2, january)])], cache = Stored [(''2024'', [(''1'', january)])],
           requests = [], printed = []\<rparr>
        = (None, \<lparr>dict = [(2025, [(2, january)])], cache = Stored S2,
                  requests = [], printed = []\<rparr>)
      \<and> map_of S2 ''2025'' = Some [(''2'', january)]
      \<and> (\<exists>sa. map_of S2 ''2024'' = Some sa \<and> map_of sa ''1'' = Some january))"
proof -
  let ?w = "\<lparr>dict = [(2025, [(1, january)])], cache = Stored [(''2024'', [(''1'', january)])],
           requests = [], printed = []\<rparr>"
  let ?before = "\<lparr>dict = [(2024, [(1, january)])], cache = Absent,
                         requests = [], printed = []\<rparr>"
  let ?wA = "\<lparr>dict = [(2024, [(1, january)])], cache = Stored [(''2024'', [(''1'', january)])],
                         requests = [], printed = []\<rparr>"
  have s: "py_str 2023 = ''2023''" "py_str 2024 = ''2024''" "py_str 2025 = ''2025''"
    "py_str 1 = ''1''" "py_str 2 = ''2''"
    by code_simp+
  have i: "py_int ''2024'' = Inr 2024" using py_int_py_str [of 2024] by (simp add: s)
  have h1: "is_dict (dict ?w)" by (simp add: is_dict_def)
  have h2: "cache ?w = Stored [(''2024'', [(''1'', january)])]" by simp
  have h3: "int_keys [(''2024'', [(''1'', january)])] = Inr [(2024, [(''1'', january)])]"
    by (simp add: int_keys_def i)
  have h4: "(2024 :: int) \<noteq> 2025" by simp
  have k1: "short_keys [(''2024'', [(''1'', january)])]"
    by (simp add: short_keys_def short_text_def)
  have k2: "Absent = Absent \<or> (\<exists>S0. Absent = Stored S0 \<and> short_keys S0)" by simp
  have h5: "write_cache_json ?before = (None, ?wA)"
    by (simp add: write_cache_json_def json_dump_def live_def s)
  note t = write_merges [where w = ?w and S = "[(''2024'', [(''1'', january)])]"
      and C = "[(2024, [(''1'', january)])]" and A = 2024 and B = 2025
      and ya = "[(1, january)]" and f = Absent and rA = "[]" and pA = "[]" and wA = ?wA
      and yb = "[(2, january)]" and rB = "[]" and pB = "[]"]
  from t h1 h2 h3 k1 obtain S' where
    a: "write_cache_json ?w = (None, ?w\<lparr>cache := Stored S'\<rparr>)"
    and b: "\<forall>y. map_of S' (py_str y) =
               (case map_of (dict ?w) y of
                  Some yd \<Rightarrow> Some (dump_year (Live yd))
                | None \<Rightarrow> map_option (\<lambda>sy. dump_year (Loaded sy))
                    (map_of [(2024 :: int, [(''1'', january)])] y))"
    by blast
  from b [rule_format, of 2025] b [rule_format, of 2024] b [rule_format, of 2023]
  have c: "map_of S' ''2025'' = Some [(''1'', january)]"
    "map_of S' ''2024'' = Some [(''1'', january)]" "map_of S' ''2023'' = None"
    by (simp_all add: s)
  from t h4 h5 k2 obtain S2 sa where
    d: "write_cache_json \<lparr>dict = [(2025, [(2, january)])], cache = cache ?wA,
           requests = [], printed = []\<rparr>
        = (None, \<lparr>dict = [(2025, [(2, january)])], cache = Stored S2,
                  requests = [], printed = []\<rparr>)"
    and e: "map_of S2 (py_str 2025) = Some (dump_year (Live [(2, january)]))"
    and f: "map_of S2 (py_str 2024) = Some sa" "\<forall>m. map_of sa (py_str m) = map_of [(1, january)] m"
    by blast
  from f(2) [rule_format, of 1] have g: "map_of sa ''1'' = Some january" by (simp add: s)
  from a c d e f(1) g h1 h3 h5 k1 show ?thesis by (simp add: s)
qed

text \<open>
  C4. When a year of \<^verbatim>\<open>self._dict\<close> that holds at least one month has been written,
  a new instance that reads the file for that year finds it, makes no request, and
  holds under that year a dict with the same integer month keys and, for each month,
  the same three day lists.
\<close>

theorem persist_round_trip:
  assumes "is_dict (dict w)" and "map_of (dict w) y = Some yd" and "is_dict yd"
    and "yd \<noteq> []" and "write_cache_json w = (None, w1)"
  shows "\<exists>yd'. read_cache_json y (fresh (cache w1)) =
             (Inr True, \<lparr>dict = [(y, yd')], cache = cache w1, requests = [], printed = []\<rparr>)
           \<and> (\<forall>m. map_of yd' m = map_of yd m)"
proof -
  from write_cache_json_shape [OF assms(5) assms(1)] assms(2) obtain c
    where c: "cache w1 = Stored (json_dump c)" and y: "map_of c y = Some (Live yd)"
    by blast
  have l: "map_of (json_dump c) (py_str y) = Some (dump_year (Live yd))"
    by (simp add: map_of_json_dump y)
  have n: "dump_year (Live yd) \<noteq> []"
    using assms(4) by (simp only: dump_live_Nil) simp
  have i: "int_keys (dump_year (Live yd)) = Inr (sort_key fst yd)"
    using assms(3) by (rule int_keys_dump_live)
  have "read_cache_json y (fresh (cache w1)) =
      (Inr True, \<lparr>dict = [(y, sort_key fst yd)], cache = cache w1, requests = [], printed = []\<rparr>)"
    using n by (simp add: read_cache_json_def fresh_def c l i del: dump_year.simps)
  moreover have "\<forall>m. map_of (sort_key fst yd) m = map_of yd m"
    by (simp add: map_of_sort_key)
  ultimately show ?thesis by blast
qed

theorem persist_round_trip_january:
  "is_dict [(2024 :: int, [(1 :: int, january)])]
   \<and> map_of [(2024 :: int, [(1 :: int, january)])] 2024 = Some [(1, january)]
   \<and> is_dict [(1 :: int, january)]
   \<and> [(1 :: int, january)] \<noteq> []
   \<and> write_cache_json january_world =
       (None, \<lparr>dict = [(2024, [(1, january)])], cache = Stored [(''2024'', [(''1'', january)])],
               requests = [], printed = []\<rparr>)
   \<and> (\<exists>yd'. read_cache_json 2024 (fresh (Stored [(''2024'', [(''1'', january)])])) =
         (Inr True, \<lparr>dict = [(2024, yd')], cache = Stored [(''2024'', [(''1'', january)])],
                     requests = [], printed = []\<rparr>)
       \<and> map_of yd' 1 = Some january \<and> map_of yd' 2 = None)"
proof -
  let ?w1 = "\<lparr>dict = [(2024, [(1, january)])], cache = Stored [(''2024'', [(''1'', january)])],
               requests = [], printed = []\<rparr>"
  have s: "py_str 2024 = ''2024''" "py_str 1 = ''1''" by code_simp+
  have h1: "is_dict (dict january_world)" by (simp add: is_dict_def january_world_def)
  have h2: "map_of (dict january_world) 2024 = Some [(1, january)]"
    by (simp add: january_world_def)
  have h3: "is_dict [(1 :: int, january)]" by (simp add: is_dict_def)
  have h4: "[(1 :: int, january)] \<noteq> []" by simp
  have h5: "write_cache_json january_world = (None, ?w1)"
    by (simp add: write_cache_json_def january_world_def json_dump_def live_def s)
  from persist_round_trip [OF h1 h2 h3 h4 h5] obtain yd' where
    r: "read_cache_json 2024 (fresh (cache ?w1)) =
             (Inr True, \<lparr>dict = [(2024, yd')], cache = cache ?w1, requests = [], printed = []\<rparr>)"
    and m: "\<forall>m. map_of yd' m = map_of [(1, january)] m"
    by blast
  from m [rule_format, of 1] m [rule_format, of 2]
  have "map_of yd' 1 = Some january" "map_of yd' 2 = None" by simp_all
  with r h1 h2 h3 h5 show ?thesis by (auto simp: january_world_def is_dict_def)
qed

text \<open>
  C8, as the code has it. When the cache file is absent the write creates it, and when
  it holds the empty JSON object the write succeeds; in both cases the new file holds
  exactly the dump of \<^verbatim>\<open>self._dict\<close>. A file that holds no JSON document is not
  read as an empty mapping: \<^verbatim>\<open>json.load\<close> raises \<open>JSONDecodeError\<close> and the file
  stays as it is.
\<close>

theorem write_absent_or_empty:
  "(is_dict (dict w) \<and> (cache w = Absent \<or> cache w = Stored [])
      \<longrightarrow> write_cache_json w = (None, w\<lparr>cache := Stored (json_dump (live (dict w)))\<rparr>))
   \<and> (cache w2 = Unparsable \<longrightarrow> write_cache_json w2 = (Some JSONDecodeError, w2))"
proof (intro conjI impI)
  assume a: "is_dict (dict w) \<and> (cache w = Absent \<or> cache w = Stored [])"
  then have "distinct (map fst (live (dict w)))"
    by (simp add: distinct_live is_dict_def)
  then have "py_update [] (live (dict w)) = live (dict w)" by (rule py_update_Nil)
  with a show "write_cache_json w = (None, w\<lparr>cache := Stored (json_dump (live (dict w)))\<rparr>)"
    by (auto simp: write_cache_json_def int_keys_def loaded_def)
next
  assume "cache w2 = Unparsable"
  then show "write_cache_json w2 = (Some JSONDecodeError, w2)"
    by (simp add: write_cache_json_def)
qed

theorem write_absent_or_empty_january:
  "is_dict [(2024 :: int, [(1 :: int, january)])]
   \<and> write_cache_json \<lparr>dict = [(2024, [(1, january)])], cache = Absent,
                         requests = [], printed = []\<rparr>
     = (None, \<lparr>dict = [(2024, [(1, january)])], cache = Stored [(''2024'', [(''1'', january)])],
               requests = [], printed = []\<rparr>)
   \<and> write_cache_json \<lparr>dict = [(2024, [(1, january)])], cache = Stored [],
                         requests = [], printed = []\<rparr>
     = (None, \<lparr>dict = [(2024, [(1, january)])], cache = Stored [(''2024'', [(''1'', january)])],
               requests = [], printed = []\<rparr>)
   \<and> write_cache_json \<lparr>dict = [], cache = Unparsable, requests = [], printed = []\<rparr>
     = (Some JSONDecodeError, \<lparr>dict = [], cache = Unparsable, requests = [], printed = []\<rparr>)"
proof -
  let ?a = "\<lparr>dict = [(2024, [(1, january)])], cache = Absent, requests = [], printed = []\<rparr>"
  let ?e = "\<lparr>dict = [(2024, [(1, january)])], cache = Stored [], requests = [], printed = []\<rparr>"
  let ?z = "\<lparr>dict = [], cache = Unparsable, requests = [], printed = []\<rparr>"
  have s: "py_str 2024 = ''2024''" "py_str 1 = ''1''" by code_simp+
  have d: "is_dict [(2024 :: int, [(1 :: int, january)])]" by (simp add: is_dict_def)
  have j: "json_dump (live [(2024, [(1, january)])]) = [(''2024'', [(''1'', january)])]"
    by (simp add: json_dump_def live_def s)
  from write_absent_or_empty [of ?a ?z] write_absent_or_empty [of ?e ?z] d j
  show ?thesis by simp
qed

text \<open>
  A file of length zero holds no JSON document, so the write over it raises: the claim
  that such a file is treated as an empty mapping fails.
\<close>

theorem write_zero_length_file_raises:
  "write_cache_json \<lparr>dict = [(2024, [(1, january)])], cache = Unparsable,
                      requests = [], printed = []\<rparr>
     = (Some JSONDecodeError,
        \<lparr>dict = [(2024, [(1, january)])], cache = Unparsable, requests = [], printed = []\<rparr>)"
  by (simp add: write_cache_json_def)

text \<open>
  C10. A year stored as the empty dict counts as missing for \<^verbatim>\<open>__read_cache_json\<close>.
  A new instance that is asked for a date of that year therefore requests the year
  from the network. The instance that holds the empty year in \<^verbatim>\<open>self._dict\<close>
  answers with \<open>KeyError\<close> and requests nothing. The empty dict is what a request
  that could not be opened leaves in \<^verbatim>\<open>self._dict\<close> and in the file.
\<close>

theorem empty_year_not_cached:
  "(cache w = Stored S \<and> map_of S (py_str y) = Some []
      \<longrightarrow> read_cache_json y w = (Inr False, w))
   \<and> (cache w = Stored S \<and> map_of S (py_str (year dt)) = Some []
       \<and> map_of (dict w) (year dt) = None
      \<longrightarrow> requests (snd (date_info net dt w)) = requests w @ [year dt])
   \<and> (map_of (dict v) (year dt) = Some []
      \<longrightarrow> date_info net dt v = (Inl KeyError, v))
   \<and> (is_dict (dict u) \<and> map_of (dict u) y = None
       \<and> fst (read_cache_json y u) = Inr False
       \<and> net (length (requests u)) y = Open_fails \<and> resolve net y u = (None, u')
      \<longrightarrow> map_of (dict u') y = Some []
          \<and> (\<exists>S'. cache u' = Stored S' \<and> map_of S' (py_str y) = Some []))"
proof (intro conjI impI)
  assume "cache w = Stored S \<and> map_of S (py_str y) = Some []"
  then show "read_cache_json y w = (Inr False, w)"
    by (simp add: read_cache_json_def)
next
  assume a: "cache w = Stored S \<and> map_of S (py_str (year dt)) = Some []
       \<and> map_of (dict w) (year dt) = None"
  then have r: "read_cache_json (year dt) w = (Inr False, w)"
    by (simp add: read_cache_json_def)
  obtain r1 w1 where g: "get_year_data net (year dt) w = (r1, w1)"
    by (cases "get_year_data net (year dt) w")
  then have q: "requests w1 = requests w @ [year dt]" by (rule get_year_data_requests)
  obtain r2 v' where wr: "write_cache_json w1 = (r2, v')"
    by (cases "write_cache_json w1")
  then have "requests v' = requests w1" by (auto dest: write_cache_json_keeps)
  with a r g q wr have "requests (snd (resolve net (year dt) w)) = requests w @ [year dt]"
    by (cases r1) (simp_all add: resolve_def)
  then show "requests (snd (date_info net dt w)) = requests w @ [year dt]"
    by (auto simp: date_info_def split: prod.splits option.splits sum.splits)
next
  assume "map_of (dict v) (year dt) = Some []"
  then show "date_info net dt v = (Inl KeyError, v)"
    by (simp add: date_info_def resolve_def month_lookup_def)
next
  assume a: "is_dict (dict u) \<and> map_of (dict u) y = None
       \<and> fst (read_cache_json y u) = Inr False
       \<and> net (length (requests u)) y = Open_fails \<and> resolve net y u = (None, u')"
  from failed_fetch_persists_empty [OF a]
  show "map_of (dict u') y = Some []" by simp
next
  assume a: "is_dict (dict u) \<and> map_of (dict u) y = None
       \<and> fst (read_cache_json y u) = Inr False
       \<and> net (length (requests u)) y = Open_fails \<and> resolve net y u = (None, u')"
  from failed_fetch_persists_empty [OF a]
  show "\<exists>S'. cache u' = Stored S' \<and> map_of S' (py_str y) = Some []" by simp
qed

theorem empty_year_not_cached_offline:
  "read_cache_json 2024 (fresh (Stored [(''2024'', [])]))
     = (Inr False, fresh (Stored [(''2024'', [])]))
   \<and> requests (snd (date_info offline \<lparr>year = 2024, month = 5, day = 1\<rparr>
        (fresh (Stored [(''2024'', [])])))) = [2024]
   \<and> date_info offline \<lparr>year = 2024, month = 5, day = 1\<rparr>
        \<lparr>dict = [(2024, [])], cache = Stored [(''2024'', [])], requests = [2024],
         printed = [URLError]\<rparr>
     = (Inl KeyError, \<lparr>dict = [(2024, [])], cache = Stored [(''2024'', [])],
         requests = [2024], printed = [URLError]\<rparr>)
   \<and> resolve offline 2024 (fresh Absent)
     = (None, \<lparr>dict = [(2024, [])], cache = Stored [(''2024'', [])], requests = [2024],
         printed = [URLError]\<rparr>)
   \<and> (\<exists>S'. Stored [(''2024'', [])] = Stored S' \<and> map_of S' ''2024'' = Some ([] :: stored_year))"
proof -
  let ?f = "fresh (Stored [(''2024'', [])])"
  let ?dt = "\<lparr>year = 2024, month = 5, day = 1\<rparr>"
  let ?w = "\<lparr>dict = [(2024, [])], cache = Stored [(''2024'', [])], requests = [2024],
         printed = [URLError]\<rparr>"
  have s: "py_str 2024 = ''2024''" by code_simp
  have h1: "cache ?f = Stored [(''2024'', [])]" by (simp add: fresh_def)
  have h2: "map_of [(''2024'', ([] :: stored_year))] (py_str 2024) = Some []" by (simp add: s)
  have h3: "map_of (dict ?f) 2024 = None" by (simp add: fresh_def)
  have h4: "map_of (dict ?w) 2024 = Some []" by simp
  have h5: "is_dict (dict (fresh Absent))" "map_of (dict (fresh Absent)) 2024 = None"
    "fst (read_cache_json 2024 (fresh Absent)) = Inr False"
    "offline (length (requests (fresh Absent))) 2024 = Open_fails"
    by (simp_all add: fresh_def is_dict_def read_cache_json_def offline_def)
  have h6: "resolve offline 2024 (fresh Absent) = (None, ?w)"
    by (simp add: resolve_def fresh_def read_cache_json_def get_year_data_def get_html_def
        offline_def write_cache_json_def json_dump_def live_def s)
  from empty_year_not_cached [where w = ?f and S = "[(''2024'', [])]" and y = 2024
      and dt = ?dt and v = ?w and u = "fresh Absent" and net = offline and u' = ?w]
    h1 h2 h3 h4 h5 h6
  show ?thesis by (simp add: s fresh_def)
qed

section \<open>Fetching\<close>

text \<open>
  C6. \<^verbatim>\<open>__get_html\<close> returns \<^verbatim>\<open>None\<close> and prints when \<^verbatim>\<open>urlopen\<close> raises. When the
  response was opened and reading or decoding its body fails, the exception leaves
  \<^verbatim>\<open>__get_html\<close>: for the year 2024 and a body that is not UTF-8 the caller gets
  \<open>UnicodeDecodeError\<close>, for a body whose transfer breaks it gets \<open>IncompleteRead\<close>.
\<close>

theorem get_html_raises_behind_try:
  "get_html (\<lambda>n y. Opened Not_utf8) 2024 (fresh Absent)
     = (Inl UnicodeDecodeError, \<lparr>dict = [], cache = Absent, requests = [2024], printed = []\<rparr>)
   \<and> get_html (\<lambda>n y. Opened Read_fails) 2024 (fresh Absent)
     = (Inl IncompleteRead, \<lparr>dict = [], cache = Absent, requests = [2024], printed = []\<rparr>)
   \<and> get_html (\<lambda>n y. Open_fails) 2024 (fresh Absent)
     = (Inr None, \<lparr>dict = [], cache = Absent, requests = [2024], printed = [URLError]\<rparr>)"
  by (simp add: get_html_def fresh_def)




section \<open>Extraction\<close>




end
